theory Spec2Isabelle
  imports Main
begin

section \<open>Python's \<open>re\<close> module, as far as the redaction patterns use it\<close>

text \<open>
  Text is a \<open>string\<close>: every \<open>char\<close> stands for the Unicode code point of the same
  number, so the model covers the texts whose code points lie below 256. The patterns are
  \<open>str\<close> patterns, so \<open>\d\<close>, \<open>\s\<close>, \<open>\w\<close> and \<open>\b\<close> are the Unicode categories; below 256
  these are the tables written out here.
\<close>

definition code_in :: "nat \<Rightarrow> nat \<Rightarrow> char \<Rightarrow> bool" where
  "code_in lo hi c = (lo \<le> of_char c \<and> (of_char c :: nat) \<le> hi)"

definition is_digit :: "char \<Rightarrow> bool" where
  "is_digit c = code_in 48 57 c"

definition is_space :: "char \<Rightarrow> bool" where
  "is_space c = (code_in 9 13 c \<or> code_in 28 32 c \<or> code_in 133 133 c \<or> code_in 160 160 c)"

definition is_word :: "char \<Rightarrow> bool" where
  "is_word c = (code_in 48 57 c \<or> code_in 65 90 c \<or> code_in 95 95 c \<or> code_in 97 122 c
     \<or> code_in 170 170 c \<or> code_in 178 179 c \<or> code_in 181 181 c \<or> code_in 185 186 c
     \<or> code_in 188 190 c \<or> code_in 192 214 c \<or> code_in 216 246 c \<or> code_in 248 255 c)"

text \<open>Simple case mappings that stay below code point 256.\<close>

definition lower :: "char \<Rightarrow> char" where
  "lower c = (if code_in 65 90 c \<or> code_in 192 214 c \<or> code_in 216 222 c
              then char_of (of_char c + (32::nat)) else c)"

definition upper :: "char \<Rightarrow> char" where
  "upper c = (if code_in 97 122 c \<or> code_in 224 246 c \<or> code_in 248 254 c
              then char_of (of_char c - (32::nat)) else c)"

text \<open>
  The parse tree of a pattern. \<open>Rep lo hi greedy r\<close> is \<open>r{lo,hi}\<close> (\<open>hi = None\<close>: no upper
  bound), lazy when \<open>greedy\<close> is false; \<open>Group n r\<close> is the capturing group number \<open>n\<close>;
  \<open>NotAhead r\<close> is \<open>(?!r)\<close>; \<open>WordBoundary\<close> is \<open>\b\<close>.
\<close>

datatype category = Digit | Space | Word

datatype cset_item = CChar char | CRange char char | CCat category | CNotCat category

datatype regex =
    Eps
  | Lit char
  | In bool "cset_item list"
  | Seq regex regex
  | Alt regex regex
  | Rep nat "nat option" bool regex
  | Group nat regex
  | NotAhead regex
  | WordBoundary

fun in_category :: "category \<Rightarrow> char \<Rightarrow> bool" where
  "in_category Digit c = is_digit c"
| "in_category Space c = is_space c"
| "in_category Word c = is_word c"

fun in_item :: "cset_item \<Rightarrow> char \<Rightarrow> bool" where
  "in_item (CChar d) c = (c = d)"
| "in_item (CRange lo hi) c = code_in (of_char lo) (of_char hi) c"
| "in_item (CCat k) c = in_category k c"
| "in_item (CNotCat k) c = (\<not> in_category k c)"

definition lit_matches :: "bool \<Rightarrow> char \<Rightarrow> char \<Rightarrow> bool" where
  "lit_matches ic d c = (if ic then lower c = lower d else c = d)"

definition in_items :: "bool \<Rightarrow> cset_item list \<Rightarrow> char \<Rightarrow> bool" where
  "in_items ic items c =
     ((\<exists>i \<in> set items. in_item i c)
      \<or> (ic \<and> (\<exists>i \<in> set items. in_item i (lower c) \<or> in_item i (upper c))))"

definition set_matches :: "bool \<Rightarrow> bool \<Rightarrow> cset_item list \<Rightarrow> char \<Rightarrow> bool" where
  "set_matches ic neg items c = (in_items ic items c \<noteq> neg)"

text \<open>
  A matcher state: the character before the current position (\<open>None\<close> at the start of the
  text), the text from the current position on, and the groups captured so far (latest
  first).
\<close>

type_synonym caps = "(nat \<times> string) list"
type_synonym mstate = "char option \<times> string \<times> caps"

definition at_boundary :: "char option \<Rightarrow> string \<Rightarrow> bool" where
  "at_boundary prev rest =
     ((case prev of None \<Rightarrow> False | Some c \<Rightarrow> is_word c)
      \<noteq> (case rest of [] \<Rightarrow> False | c # _ \<Rightarrow> is_word c))"

definition progressed :: "mstate \<Rightarrow> mstate \<Rightarrow> bool" where
  "progressed s s' = (length (fst (snd s')) < length (fst (snd s)))"

text \<open>
  Backtracking as a list of successes, in the order in which the engine tries them: the head
  of the list is the match the engine reports. \<open>repeat f greedy lo n s\<close> runs the body \<open>f\<close>
  at least \<open>lo\<close> and at most \<open>n\<close> more times; past the minimum an iteration has to consume
  a character (the bodies of all repetitions in the source's patterns always do).
\<close>

fun repeat :: "(mstate \<Rightarrow> mstate list) \<Rightarrow> bool \<Rightarrow> nat \<Rightarrow> nat \<Rightarrow> mstate \<Rightarrow> mstate list" where
  "repeat f greedy lo 0 s = (if lo = 0 then [s] else [])"
| "repeat f greedy lo (Suc n) s =
     (if 0 < lo then concat (map (repeat f greedy (lo - 1) n) (f s))
      else let more = concat (map (repeat f greedy 0 n) (filter (progressed s) (f s)))
           in if greedy then more @ [s] else s # more)"

fun m :: "bool \<Rightarrow> regex \<Rightarrow> mstate \<Rightarrow> mstate list" where
  "m ic Eps s = [s]"
| "m ic (Lit d) (prev, rest, caps) =
     (case rest of [] \<Rightarrow> []
      | c # cs \<Rightarrow> if lit_matches ic d c then [(Some c, cs, caps)] else [])"
| "m ic (In neg items) (prev, rest, caps) =
     (case rest of [] \<Rightarrow> []
      | c # cs \<Rightarrow> if set_matches ic neg items c then [(Some c, cs, caps)] else [])"
| "m ic (Seq a b) s = concat (map (m ic b) (m ic a s))"
| "m ic (Alt a b) s = m ic a s @ m ic b s"
| "m ic (Rep lo hi greedy r) (prev, rest, caps) =
     repeat (m ic r) greedy lo (case hi of None \<Rightarrow> lo + length rest | Some h \<Rightarrow> h)
       (prev, rest, caps)"
| "m ic (Group n r) (prev, rest, caps) =
     map (\<lambda>(prev', rest', caps'). (prev', rest', (n, take (length rest - length rest') rest) # caps'))
       (m ic r (prev, rest, caps))"
| "m ic (NotAhead r) s = (if m ic r s = [] then [s] else [])"
| "m ic WordBoundary (prev, rest, caps) =
     (if at_boundary prev rest then [(prev, rest, caps)] else [])"


text \<open>
  A compiled pattern (\<open>re.Pattern\<close>): the \<open>IGNORECASE\<close> flag and the parse tree. A
  replacement template in parsed form: literal text and group references (\<open>TGroup 0\<close> is
  the whole match).
\<close>

record re_Pattern =
  ignorecase :: bool
  tree :: regex

datatype titem = TLit string | TGroup nat

type_synonym template = "titem list"

datatype exn = Exception string

fun ngroups :: "regex \<Rightarrow> nat" where
  "ngroups (Seq a b) = max (ngroups a) (ngroups b)"
| "ngroups (Alt a b) = max (ngroups a) (ngroups b)"
| "ngroups (Rep lo hi greedy r) = ngroups r"
| "ngroups (Group n r) = max n (ngroups r)"
| "ngroups (NotAhead r) = ngroups r"
| "ngroups r = 0"

text \<open>
  The first match at the current position, as its length and its groups. With
  \<open>must_advance\<close> (set after an empty match) the engine goes on backtracking until it finds
  a match that is not empty.
\<close>

definition match_at :: "re_Pattern \<Rightarrow> char option \<Rightarrow> string \<Rightarrow> bool \<Rightarrow> (nat \<times> caps) option" where
  "match_at p prev rest must_advance =
     (case filter (\<lambda>s'. \<not> must_advance \<or> progressed (prev, rest, []) s')
             (m (ignorecase p) (tree p) (prev, rest, [])) of
        [] \<Rightarrow> None
      | (prev', rest', caps) # _ \<Rightarrow> Some (length rest - length rest', caps))"

fun expand :: "template \<Rightarrow> string \<Rightarrow> caps \<Rightarrow> string" where
  "expand [] matched caps = []"
| "expand (TLit s # ts) matched caps = s @ expand ts matched caps"
| "expand (TGroup n # ts) matched caps =
     (if n = 0 then matched else case map_of caps n of None \<Rightarrow> [] | Some g \<Rightarrow> g)
     @ expand ts matched caps"

text \<open>
  \<open>Pattern.sub\<close>: the leftmost non-overlapping matches are replaced, scanning from left to
  right; a character at which nothing matches is copied. After an empty match the search
  resumes at the same position with \<open>must_advance\<close> set.
\<close>

function sub_loop :: "re_Pattern \<Rightarrow> template \<Rightarrow> char option \<Rightarrow> string \<Rightarrow> bool \<Rightarrow> string" where
  "sub_loop p repl prev rest must_advance =
     (case match_at p prev rest must_advance of
        Some (n, caps) \<Rightarrow>
          expand repl (take n rest) caps
          @ sub_loop p repl (if n = 0 then prev else Some (last (take n rest))) (drop n rest) (n = 0)
      | None \<Rightarrow>
          (case rest of [] \<Rightarrow> []
           | c # cs \<Rightarrow> c # sub_loop p repl (Some c) cs False))"
  by pat_completeness auto

lemma filter_head_holds: "filter P xs = x # ys \<Longrightarrow> P x"
proof -
  assume "filter P xs = x # ys"
  then have "x \<in> set (filter P xs)" by simp
  then show "P x" by simp
qed

lemma match_at_advances:
  "match_at p prev rest True = Some (n, caps) \<Longrightarrow> 0 < n"
  by (auto simp: match_at_def progressed_def split: list.splits dest!: filter_head_holds)

lemma match_at_within:
  "match_at p prev rest adv = Some (n, caps) \<Longrightarrow> n \<le> length rest"
  by (auto simp: match_at_def split: list.splits)

termination sub_loop
proof (relation "measure (\<lambda>(p, repl, prev, rest, adv). 2 * length rest + (if adv then 0 else 1))",
       goal_cases)
  case 1
  show ?case by simp
next
  case 2
  then show ?case by simp
next
  case (3 p repl prev rest adv x n caps)
  then have hit: "match_at p prev rest adv = Some (n, caps)" by simp
  have "n \<le> length rest"
    using hit by (rule match_at_within)
  moreover have "0 < n" if adv
    using hit that by (auto dest: match_at_advances)
  ultimately show ?case by (cases adv; cases "n = 0") auto
qed

declare sub_loop.simps [simp del]

text \<open>
  A template stands for the template string in which a literal piece is written as it is
  (it holds no backslash) and the reference to group \<open>n\<close> as \<^verbatim>\<open>\n\<close>, not followed by a
  digit (as \<^verbatim>\<open>\g<n>\<close> for \<open>n = 0\<close> and for \<open>n\<close> above 99). A reference to a group that the
  pattern does not have is rejected when the template is parsed, before any matching is
  done; the message of the \<open>re.error\<close> names the first such reference and its position in
  the template string, and line and column as well when the string holds a newline.
\<close>

function decimal :: "nat \<Rightarrow> string" where
  "decimal n = (if n < 10 then [char_of (48 + n)] else decimal (n div 10) @ [char_of (48 + n mod 10)])"
  by pat_completeness auto

termination decimal
  by (relation "measure (\<lambda>n. n)") auto

declare decimal.simps [simp del]

definition long_reference :: "nat \<Rightarrow> bool" where
  "long_reference n = (n = 0 \<or> 100 \<le> n)"

definition reference_source :: "nat \<Rightarrow> string" where
  "reference_source n =
     (if long_reference n then [CHR 0x5C] @ ''g<'' @ decimal n @ ''>'' else [CHR 0x5C] @ decimal n)"

fun template_source :: "template \<Rightarrow> string" where
  "template_source [] = []"
| "template_source (TLit s # ts) = s @ template_source ts"
| "template_source (TGroup n # ts) = reference_source n @ template_source ts"

text \<open>The first reference to a missing group, with the position that the error reports.\<close>

fun invalid_reference :: "nat \<Rightarrow> template \<Rightarrow> nat \<Rightarrow> (nat \<times> nat) option" where
  "invalid_reference groups [] pos = None"
| "invalid_reference groups (TLit s # ts) pos = invalid_reference groups ts (pos + length s)"
| "invalid_reference groups (TGroup n # ts) pos =
     (if groups < n then Some (n, pos + (if long_reference n then 3 else 1))
      else invalid_reference groups ts (pos + length (reference_source n)))"

definition error_at :: "string \<Rightarrow> string \<Rightarrow> nat \<Rightarrow> string" where
  "error_at msg src pos =
     msg @ '' at position '' @ decimal pos
     @ (if CHR 0x0A \<in> set src
        then '' (line '' @ decimal (length (filter (\<lambda>c. c = CHR 0x0A) (take pos src)) + 1)
             @ '', column ''
             @ decimal (length (takeWhile (\<lambda>c. c \<noteq> CHR 0x0A) (rev (take pos src))) + 1) @ '')''
        else [])"

definition sub :: "re_Pattern \<Rightarrow> template \<Rightarrow> string \<Rightarrow> exn + string" where
  "sub p repl text =
     (case invalid_reference (ngroups (tree p)) repl 0 of
        Some (n, pos) \<Rightarrow>
          Inl (Exception (error_at (''invalid group reference '' @ decimal n) (template_source repl) pos))
      | None \<Rightarrow> Inr (sub_loop p repl None text False))"

subsection \<open>Notation for writing the patterns down\<close>

fun seqs :: "regex list \<Rightarrow> regex" where
  "seqs [] = Eps"
| "seqs [r] = r"
| "seqs (r # rs) = Seq r (seqs rs)"

fun alts :: "regex list \<Rightarrow> regex" where
  "alts [] = In False []"
| "alts [r] = r"
| "alts (r # rs) = Alt r (alts rs)"

definition str :: "string \<Rightarrow> regex" where
  "str s = seqs (map Lit s)"

definition times :: "nat \<Rightarrow> regex \<Rightarrow> regex" where
  "times n r = Rep n (Some n) True r"

definition at_least :: "nat \<Rightarrow> regex \<Rightarrow> regex" where
  "at_least n r = Rep n None True r"

definition opt :: "regex \<Rightarrow> regex" where
  "opt r = Rep 0 (Some 1) True r"

definition one_of :: "cset_item list \<Rightarrow> regex" where
  "one_of items = In False items"

definition none_of :: "cset_item list \<Rightarrow> regex" where
  "none_of items = In True items"

abbreviation "d09 \<equiv> CRange (CHR ''0'') (CHR ''9'')"
abbreviation "AZ \<equiv> CRange (CHR ''A'') (CHR ''Z'')"
abbreviation "az \<equiv> CRange (CHR ''a'') (CHR ''z'')"
abbreviation "dquote \<equiv> CHR 0x22"
abbreviation "squote \<equiv> CHR 0x27"


section \<open>base_profile.py\<close>

text \<open>
  What the code does besides returning values is kept as a list of events: the messages it
  logs and its calls of \<open>re.compile\<close>.
\<close>

datatype event = LogInfo string | LogWarning string | ReCompile

definition re_compile :: "regex \<Rightarrow> bool \<Rightarrow> re_Pattern \<times> event list" where
  "re_compile r ic = (\<lparr>ignorecase = ic, tree = r\<rparr>, [ReCompile])"

record RedactionPattern =
  name :: string
  pattern :: re_Pattern
  replacement :: template
  description :: string

type_synonym detector = string

text \<open>
  A profile object: its two properties and its two methods. A method is given by what one
  call of it returns and the events of that call: the profiles of the model are those whose
  methods return.
\<close>

record ComplianceProfile =
  profile_name :: string
  profile_description :: string
  get_patterns :: "RedactionPattern list \<times> event list"
  get_scrubadub_detectors :: "detector list"

section \<open>profiles/us\_global.py\<close>

definition RedactionPattern_init ::
  "string \<Rightarrow> re_Pattern \<times> event list \<Rightarrow> template \<Rightarrow> string \<Rightarrow> RedactionPattern \<times> event list" where
  "RedactionPattern_init n compiled repl d =
     (\<lparr>name = n, pattern = fst compiled, replacement = repl, description = d\<rparr>, snd compiled)"

definition list_of :: "('a \<times> event list) list \<Rightarrow> 'a list \<times> event list" where
  "list_of xs = (map fst xs, concat (map snd xs))"

text \<open>\<^verbatim>\<open>\b(?:4[0-9]{12}(?:[0-9]{3})?|5[1-5][0-9]{14}|3[47][0-9]{13}|6(?:011|5[0-9]{2})[0-9]{12}|(?:2131|1800|35\d{3})\d{11})\b\<close>\<close>

definition credit_card_re :: regex where
  "credit_card_re = seqs [WordBoundary,
     alts [seqs [Lit (CHR ''4''), times 12 (one_of [d09]), opt (times 3 (one_of [d09]))],
           seqs [Lit (CHR ''5''), one_of [CRange (CHR ''1'') (CHR ''5'')], times 14 (one_of [d09])],
           seqs [Lit (CHR ''3''), one_of [CChar (CHR ''4''), CChar (CHR ''7'')], times 13 (one_of [d09])],
           seqs [Lit (CHR ''6''), alts [str ''011'', seqs [Lit (CHR ''5''), times 2 (one_of [d09])]],
                 times 12 (one_of [d09])],
           seqs [alts [str ''2131'', str ''1800'', seqs [str ''35'', times 3 (one_of [CCat Digit])]],
                 times 11 (one_of [CCat Digit])]],
     WordBoundary]"

text \<open>\<^verbatim>\<open>\b(?:\d{4}[-\s]?){3}\d{4}\b\<close>\<close>

definition credit_card_formatted_re :: regex where
  "credit_card_formatted_re = seqs [WordBoundary,
     times 3 (seqs [times 4 (one_of [CCat Digit]), opt (one_of [CChar (CHR ''-''), CCat Space])]),
     times 4 (one_of [CCat Digit]),
     WordBoundary]"

text \<open>\<^verbatim>\<open>\b(?!000|666|9\d{2})\d{3}-(?!00)\d{2}-(?!0000)\d{4}\b\<close>\<close>

definition ssn_re :: regex where
  "ssn_re = seqs [WordBoundary,
     NotAhead (alts [str ''000'', str ''666'', seqs [Lit (CHR ''9''), times 2 (one_of [CCat Digit])]]),
     times 3 (one_of [CCat Digit]), Lit (CHR ''-''),
     NotAhead (str ''00''), times 2 (one_of [CCat Digit]), Lit (CHR ''-''),
     NotAhead (str ''0000''), times 4 (one_of [CCat Digit]),
     WordBoundary]"

text \<open>\<^verbatim>\<open>\b(?!000|666|9\d{2})\d{3}(?!00)\d{2}(?!0000)\d{4}\b\<close>\<close>

definition ssn_no_dash_re :: regex where
  "ssn_no_dash_re = seqs [WordBoundary,
     NotAhead (alts [str ''000'', str ''666'', seqs [Lit (CHR ''9''), times 2 (one_of [CCat Digit])]]),
     times 3 (one_of [CCat Digit]),
     NotAhead (str ''00''), times 2 (one_of [CCat Digit]),
     NotAhead (str ''0000''), times 4 (one_of [CCat Digit]),
     WordBoundary]"

text \<open>\<^verbatim>\<open>\b(AKIA|ABIA|ACCA|ASIA)[A-Z0-9]{16}\b\<close>\<close>

definition aws_access_key_re :: regex where
  "aws_access_key_re = seqs [WordBoundary,
     Group 1 (alts [str ''AKIA'', str ''ABIA'', str ''ACCA'', str ''ASIA'']),
     times 16 (one_of [AZ, d09]),
     WordBoundary]"

text \<open>\<^verbatim>\<open>\b[A-Za-z0-9/+=]{40}\b\<close>\<close>

definition aws_secret_key_re :: regex where
  "aws_secret_key_re = seqs [WordBoundary,
     times 40 (one_of [AZ, az, d09, CChar (CHR ''/''), CChar (CHR ''+''), CChar (CHR ''='')]),
     WordBoundary]"

abbreviation "b64url \<equiv> one_of [AZ, az, d09, CChar (CHR ''_''), CChar (CHR ''-'')]"

text \<open>\<^verbatim>\<open>Bearer\s+eyJ[A-Za-z0-9_-]+\.eyJ[A-Za-z0-9_-]+\.[A-Za-z0-9_-]+\<close>\<close>

definition bearer_token_re :: regex where
  "bearer_token_re = seqs [str ''Bearer'', at_least 1 (one_of [CCat Space]),
     str ''eyJ'', at_least 1 b64url, Lit (CHR ''.''),
     str ''eyJ'', at_least 1 b64url, Lit (CHR ''.''),
     at_least 1 b64url]"

text \<open>\<^verbatim>\<open>\beyJ[A-Za-z0-9_-]{10,}\.eyJ[A-Za-z0-9_-]{10,}\.[A-Za-z0-9_-]{10,}\b\<close>\<close>

definition jwt_token_re :: regex where
  "jwt_token_re = seqs [WordBoundary,
     str ''eyJ'', at_least 10 b64url, Lit (CHR ''.''),
     str ''eyJ'', at_least 10 b64url, Lit (CHR ''.''),
     at_least 10 b64url,
     WordBoundary]"

abbreviation "sep \<equiv> opt (one_of [CChar (CHR ''_''), CChar (CHR ''-'')])"
abbreviation "spaces \<equiv> at_least 0 (one_of [CCat Space])"
abbreviation "quote \<equiv> opt (one_of [CChar dquote, CChar squote])"

text \<open>\<^verbatim>\<open>(?i)(api[_-]?key|apikey|api[_-]?secret|secret[_-]?key|access[_-]?token|auth[_-]?token)\s*[=:]\s*["\']?([A-Za-z0-9_\-+=/.]{16,})["\']?\<close>, compiled with \<open>re.IGNORECASE\<close>\<close>

definition api_key_value_re :: regex where
  "api_key_value_re = seqs [
     Group 1 (alts [seqs [str ''api'', sep, str ''key''], str ''apikey'',
                    seqs [str ''api'', sep, str ''secret''], seqs [str ''secret'', sep, str ''key''],
                    seqs [str ''access'', sep, str ''token''], seqs [str ''auth'', sep, str ''token'']]),
     spaces, one_of [CChar (CHR ''=''), CChar (CHR '':'')], spaces, quote,
     Group 2 (at_least 16 (one_of [AZ, az, d09, CChar (CHR ''_''), CChar (CHR ''-''),
        CChar (CHR ''+''), CChar (CHR ''=''), CChar (CHR ''/''), CChar (CHR ''.'')])),
     quote]"

text \<open>\<^verbatim>\<open>(?i)(password|passwd|pwd)\s*[=:]\s*["\']?([^\s"\']{4,})["\']?\<close>\<close>

definition password_re :: regex where
  "password_re = seqs [
     Group 1 (alts [str ''password'', str ''passwd'', str ''pwd'']),
     spaces, one_of [CChar (CHR ''=''), CChar (CHR '':'')], spaces, quote,
     Group 2 (at_least 4 (none_of [CCat Space, CChar dquote, CChar squote])),
     quote]"

abbreviation "spaces1 \<equiv> at_least 1 (one_of [CCat Space])"

text \<open>\<^verbatim>\<open>-----BEGIN\s+(?:RSA\s+)?PRIVATE\s+KEY-----[\s\S]*?-----END\s+(?:RSA\s+)?PRIVATE\s+KEY-----\<close>\<close>

definition private_key_re :: regex where
  "private_key_re = seqs [str ''-----BEGIN'', spaces1, opt (seqs [str ''RSA'', spaces1]),
     str ''PRIVATE'', spaces1, str ''KEY-----'',
     Rep 0 None False (one_of [CCat Space, CNotCat Space]),
     str ''-----END'', spaces1, opt (seqs [str ''RSA'', spaces1]),
     str ''PRIVATE'', spaces1, str ''KEY-----'']"

text \<open>\<^verbatim>\<open>\b(ghp_[A-Za-z0-9]{36}|gho_[A-Za-z0-9]{36}|ghu_[A-Za-z0-9]{36}|ghs_[A-Za-z0-9]{36}|ghr_[A-Za-z0-9]{36})\b\<close>\<close>

definition github_token_re :: regex where
  "github_token_re = seqs [WordBoundary,
     Group 1 (alts [seqs [str ''ghp_'', times 36 (one_of [AZ, az, d09])],
                    seqs [str ''gho_'', times 36 (one_of [AZ, az, d09])],
                    seqs [str ''ghu_'', times 36 (one_of [AZ, az, d09])],
                    seqs [str ''ghs_'', times 36 (one_of [AZ, az, d09])],
                    seqs [str ''ghr_'', times 36 (one_of [AZ, az, d09])]]),
     WordBoundary]"

text \<open>\<^verbatim>\<open>\b(xox[baprs]-[A-Za-z0-9\-]+)\b\<close>\<close>

definition slack_token_re :: regex where
  "slack_token_re = seqs [WordBoundary,
     Group 1 (seqs [str ''xox'',
        one_of [CChar (CHR ''b''), CChar (CHR ''a''), CChar (CHR ''p''), CChar (CHR ''r''), CChar (CHR ''s'')],
        Lit (CHR ''-''), at_least 1 (one_of [AZ, az, d09, CChar (CHR ''-'')])]),
     WordBoundary]"

definition USGlobalProfile_name :: string where
  "USGlobalProfile_name = ''us_global''"

definition USGlobalProfile_description :: string where
  "USGlobalProfile_description = ''US and global compliance patterns (PCI-DSS, credentials, common PII)''"

definition USGlobalProfile_get_patterns :: "RedactionPattern list \<times> event list" where
  "USGlobalProfile_get_patterns = list_of [
     RedactionPattern_init ''credit_card'' (re_compile credit_card_re False)
       [TLit ''{{CREDIT_CARD}}''] ''Credit card number (PCI-DSS)'',
     RedactionPattern_init ''credit_card_formatted'' (re_compile credit_card_formatted_re False)
       [TLit ''{{CREDIT_CARD}}''] ''Formatted credit card (with spaces/dashes)'',
     RedactionPattern_init ''ssn'' (re_compile ssn_re False)
       [TLit ''{{SSN}}''] ''US Social Security Number'',
     RedactionPattern_init ''ssn_no_dash'' (re_compile ssn_no_dash_re False)
       [TLit ''{{SSN}}''] ''US SSN without dashes'',
     RedactionPattern_init ''aws_access_key'' (re_compile aws_access_key_re False)
       [TLit ''{{AWS_ACCESS_KEY}}''] ''AWS Access Key ID'',
     RedactionPattern_init ''aws_secret_key'' (re_compile aws_secret_key_re False)
       [TLit ''{{AWS_SECRET_KEY}}''] ''Potential AWS Secret Access Key'',
     RedactionPattern_init ''bearer_token'' (re_compile bearer_token_re False)
       [TLit ''Bearer {{JWT_TOKEN}}''] ''JWT Bearer token'',
     RedactionPattern_init ''jwt_token'' (re_compile jwt_token_re False)
       [TLit ''{{JWT_TOKEN}}''] ''JWT token'',
     RedactionPattern_init ''api_key_value'' (re_compile api_key_value_re True)
       [TGroup 1, TLit ''={{REDACTED_KEY}}''] ''API key in key=value format'',
     RedactionPattern_init ''password'' (re_compile password_re True)
       [TGroup 1, TLit ''={{REDACTED_PASSWORD}}''] ''Password in logs'',
     RedactionPattern_init ''private_key'' (re_compile private_key_re False)
       [TLit ''{{PRIVATE_KEY_REDACTED}}''] ''Private key block'',
     RedactionPattern_init ''github_token'' (re_compile github_token_re False)
       [TLit ''{{GITHUB_TOKEN}}''] ''GitHub personal access token'',
     RedactionPattern_init ''slack_token'' (re_compile slack_token_re False)
       [TLit ''{{SLACK_TOKEN}}''] ''Slack API token'']"

text \<open>
  The class has no constructor of its own and overrides neither \<open>get_scrubadub_detectors\<close>
  (the base class returns the empty list): making the object runs none of the methods.
\<close>

definition USGlobalProfile :: ComplianceProfile where
  "USGlobalProfile = \<lparr>profile_name = USGlobalProfile_name,
     profile_description = USGlobalProfile_description,
     get_patterns = USGlobalProfile_get_patterns,
     get_scrubadub_detectors = []\<rparr>"

definition DEFAULT_PROFILE :: ComplianceProfile where
  "DEFAULT_PROFILE = USGlobalProfile"


section \<open>engine.py\<close>

text \<open>
  The scrubadub library is not part of the repository: \<open>Scrubber.clean\<close> is a parameter of the
  model, a function of the detectors that were added to the scrubber and of the text, which
  returns the cleaned text or raises. The scrubber object is the list of the detectors added
  to it. The \<open>dict\<close> of profiles is a list of pairs in insertion order with distinct keys.
\<close>

type_synonym scrubadub = "detector list \<Rightarrow> string \<Rightarrow> exn + string"

record RedactionEngine =
  profiles :: "(string \<times> ComplianceProfile) list"
  scrubber :: "detector list"

fun dict_set :: "'k \<Rightarrow> 'v \<Rightarrow> ('k \<times> 'v) list \<Rightarrow> ('k \<times> 'v) list" where
  "dict_set k v [] = [(k, v)]"
| "dict_set k v ((k', v') # kvs) =
     (if k' = k then (k', v) # kvs else (k', v') # dict_set k v kvs)"

definition dict_contains :: "'k \<Rightarrow> ('k \<times> 'v) list \<Rightarrow> bool" where
  "dict_contains k kvs = (k \<in> set (map fst kvs))"

definition dict_del :: "'k \<Rightarrow> ('k \<times> 'v) list \<Rightarrow> ('k \<times> 'v) list" where
  "dict_del k kvs = filter (\<lambda>kv. fst kv \<noteq> k) kvs"

definition add_detector :: "detector \<Rightarrow> detector list \<Rightarrow> detector list" where
  "add_detector d ds = ds @ [d]"

definition load_profile :: "RedactionEngine \<Rightarrow> ComplianceProfile \<Rightarrow> RedactionEngine \<times> event list" where
  "load_profile e profile =
     (e\<lparr>profiles := dict_set (profile_name profile) profile (profiles e),
        scrubber := fold add_detector (get_scrubadub_detectors profile) (scrubber e)\<rparr>,
      [LogInfo (''Loaded compliance profile: '' @ profile_name profile)])"

definition RedactionEngine_init :: "bool \<Rightarrow> RedactionEngine \<times> event list" where
  "RedactionEngine_init load_default_profile =
     (let e = \<lparr>profiles = [], scrubber = []\<rparr>
      in if load_default_profile then load_profile e DEFAULT_PROFILE else (e, []))"

definition unload_profile :: "RedactionEngine \<Rightarrow> string \<Rightarrow> (bool \<times> RedactionEngine) \<times> event list" where
  "unload_profile e profile_name' =
     (if dict_contains profile_name' (profiles e)
      then ((True, e\<lparr>profiles := dict_del profile_name' (profiles e)\<rparr>),
            [LogInfo (''Unloaded compliance profile: '' @ profile_name')])
      else ((False, e), []))"

definition list_profiles :: "RedactionEngine \<Rightarrow> string list" where
  "list_profiles e = map fst (profiles e)"

text \<open>
  The body of the inner loop of \<open>redact\<close>: one pattern, applied to the text so far; an
  exception of the substitution is logged and the text stays as it is.
\<close>

fun apply_pattern :: "RedactionPattern \<Rightarrow> string \<times> event list \<Rightarrow> string \<times> event list" where
  "apply_pattern pat (text, evs) =
     (case sub (pattern pat) (replacement pat) text of
        Inr text' \<Rightarrow> (text', evs)
      | Inl (Exception msg) \<Rightarrow>
          (text, evs @ [LogWarning (''Pattern '' @ [squote] @ name pat @ [squote] @ '' error: '' @ msg)]))"

text \<open>The body of the outer loop: one call of \<open>get_patterns\<close>, then the inner loop.\<close>

fun apply_profile :: "ComplianceProfile \<Rightarrow> string \<times> event list \<Rightarrow> string \<times> event list" where
  "apply_profile profile (text, evs) =
     fold apply_pattern (fst (get_patterns profile)) (text, evs @ snd (get_patterns profile))"

text \<open>The argument of \<open>redact\<close> is \<open>None\<close> or a \<open>str\<close>; both \<open>None\<close> and the empty string are falsy.\<close>

definition redact ::
  "scrubadub \<Rightarrow> RedactionEngine \<Rightarrow> string option \<Rightarrow> (string option \<times> bool) \<times> event list" where
  "redact clean e text =
     (case text of
        None \<Rightarrow> ((None, False), [])
      | Some original_text \<Rightarrow>
          if original_text = [] then ((Some original_text, False), [])
          else
            let step1 = (case clean (scrubber e) original_text of
                           Inr text' \<Rightarrow> (text', [])
                         | Inl (Exception msg) \<Rightarrow>
                             (original_text,
                              [LogWarning (''Scrubadub error (continuing with regex): '' @ msg)]));
                step2 = fold apply_profile (map snd (profiles e)) step1
            in ((Some (fst step2), fst step2 \<noteq> original_text), snd step2))"

text \<open>
  The loop of \<open>redact_batch\<close>, with its two accumulators \<open>results\<close> and \<open>any_redacted\<close> (and
  the events so far).
\<close>

fun redact_batch_loop ::
  "scrubadub \<Rightarrow> RedactionEngine \<Rightarrow> string option list \<Rightarrow> string option list \<Rightarrow> bool \<Rightarrow> event list
     \<Rightarrow> (string option list \<times> bool) \<times> event list" where
  "redact_batch_loop clean e [] results any_redacted evs = ((results, any_redacted), evs)"
| "redact_batch_loop clean e (text # texts) results any_redacted evs =
     (case redact clean e text of
        ((redacted_text, was_redacted), evs') \<Rightarrow>
          redact_batch_loop clean e texts (results @ [redacted_text])
            (if was_redacted then True else any_redacted) (evs @ evs'))"

definition redact_batch ::
  "scrubadub \<Rightarrow> RedactionEngine \<Rightarrow> string option list \<Rightarrow> (string option list \<times> bool) \<times> event list" where
  "redact_batch clean e texts = redact_batch_loop clean e texts [] False []"


section \<open>Derived notions used to state the properties\<close>

text \<open>The text that the pattern stage starts from: the scrubber's output, or the input when the scrubber raises.\<close>

definition scrubbed :: "scrubadub \<Rightarrow> RedactionEngine \<Rightarrow> string \<Rightarrow> string" where
  "scrubbed clean e t = (case clean (scrubber e) t of Inr t' \<Rightarrow> t' | Inl x \<Rightarrow> t)"

text \<open>What one pattern does to the text: its substitution, or nothing when the substitution raises.\<close>

definition pattern_step :: "RedactionPattern \<Rightarrow> string \<Rightarrow> string" where
  "pattern_step pat text = (case sub (pattern pat) (replacement pat) text of Inr text' \<Rightarrow> text' | Inl x \<Rightarrow> text)"

text \<open>The patterns of all loaded profiles, in the order of the two nested loops of \<open>redact\<close>.\<close>

definition all_patterns :: "RedactionEngine \<Rightarrow> RedactionPattern list" where
  "all_patterns e = concat (map (\<lambda>kv. fst (get_patterns (snd kv))) (profiles e))"

definition identity_scrubber :: scrubadub where
  "identity_scrubber ds t = Inr t"

definition failing_scrubber :: scrubadub where
  "failing_scrubber ds t = Inl (Exception ''detector failure'')"

definition compile_calls :: "event list \<Rightarrow> nat" where
  "compile_calls evs = length (filter (\<lambda>ev. ev = ReCompile) evs)"

text \<open>The warning that the inner loop logs for a pattern applied to a text, if any.\<close>

definition pattern_warning :: "RedactionPattern \<Rightarrow> string \<Rightarrow> event list" where
  "pattern_warning pat text =
     (case sub (pattern pat) (replacement pat) text of
        Inr text' \<Rightarrow> []
      | Inl (Exception msg) \<Rightarrow>
          [LogWarning (''Pattern '' @ [squote] @ name pat @ [squote] @ '' error: '' @ msg)])"

fun warnings_of :: "RedactionPattern list \<Rightarrow> string \<Rightarrow> event list" where
  "warnings_of [] text = []"
| "warnings_of (pat # pats) text = pattern_warning pat text @ warnings_of pats (pattern_step pat text)"

text \<open>The events of the outer loop: per profile, those of \<open>get_patterns\<close> and then the warnings.\<close>

fun profile_trace :: "ComplianceProfile list \<Rightarrow> string \<Rightarrow> event list" where
  "profile_trace [] text = []"
| "profile_trace (profile # rest) text =
     snd (get_patterns profile) @ warnings_of (fst (get_patterns profile)) text
     @ profile_trace rest (fold pattern_step (fst (get_patterns profile)) text)"

text \<open>A fresh engine without the default profile, with the given profiles loaded one after the other.\<close>

definition load_all :: "ComplianceProfile list \<Rightarrow> RedactionEngine" where
  "load_all ps = fold (\<lambda>profile e. fst (load_profile e profile)) ps (fst (RedactionEngine_init False))"

text \<open>A profile for examples: no detectors, patterns that were compiled beforehand.\<close>

definition literal_pattern :: "string \<Rightarrow> string \<Rightarrow> template \<Rightarrow> RedactionPattern" where
  "literal_pattern n s repl =
     \<lparr>name = n, pattern = \<lparr>ignorecase = False, tree = str s\<rparr>, replacement = repl, description = []\<rparr>"

definition example_profile :: "string \<Rightarrow> RedactionPattern list \<Rightarrow> ComplianceProfile" where
  "example_profile n pats =
     \<lparr>profile_name = n, profile_description = [], get_patterns = (pats, []), get_scrubadub_detectors = []\<rparr>"

text \<open>
  Where a pattern matches in a text: \<open>matches_from prev rest j p\<close> says that the matcher
  finds a match that starts \<open>j\<close> characters into \<open>rest\<close> (\<open>prev\<close> being the character before
  \<open>rest\<close>), and \<open>matches_at p t i\<close> that it finds one at offset \<open>i\<close> of the text \<open>t\<close>.
\<close>

definition char_before :: "char option \<Rightarrow> string \<Rightarrow> nat \<Rightarrow> char option" where
  "char_before prev rest j = (if j = 0 then prev else Some (rest ! (j - 1)))"

definition matches_from :: "char option \<Rightarrow> string \<Rightarrow> nat \<Rightarrow> re_Pattern \<Rightarrow> bool" where
  "matches_from prev rest j p =
     (j \<le> length rest \<and> m (ignorecase p) (tree p) (char_before prev rest j, drop j rest, []) \<noteq> [])"

definition matches_at :: "re_Pattern \<Rightarrow> string \<Rightarrow> nat \<Rightarrow> bool" where
  "matches_at p t i = matches_from None t i p"

text \<open>
  The pass of \<open>sub\<close> over a text, piece by piece: a character that is copied, or a matched
  stretch together with the text that replaces it.
\<close>

datatype piece = Copied char | Replaced string string

fun piece_source :: "piece \<Rightarrow> string" where
  "piece_source (Copied c) = [c]"
| "piece_source (Replaced matched repl) = matched"

fun piece_output :: "piece \<Rightarrow> string" where
  "piece_output (Copied c) = [c]"
| "piece_output (Replaced matched repl) = repl"

function pieces_from :: "re_Pattern \<Rightarrow> template \<Rightarrow> char option \<Rightarrow> string \<Rightarrow> bool \<Rightarrow> piece list" where
  "pieces_from p repl prev rest must_advance =
     (case match_at p prev rest must_advance of
        Some (n, caps) \<Rightarrow>
          Replaced (take n rest) (expand repl (take n rest) caps)
          # pieces_from p repl (if n = 0 then prev else Some (last (take n rest))) (drop n rest) (n = 0)
      | None \<Rightarrow>
          (case rest of [] \<Rightarrow> []
           | c # cs \<Rightarrow> Copied c # pieces_from p repl (Some c) cs False))"
  by pat_completeness auto

termination pieces_from
proof (relation "measure (\<lambda>(p, repl, prev, rest, adv). 2 * length rest + (if adv then 0 else 1))",
       goal_cases)
  case 1
  show ?case by simp
next
  case 2
  then show ?case by simp
next
  case (3 p repl prev rest adv x n caps)
  then have hit: "match_at p prev rest adv = Some (n, caps)" by simp
  have "n \<le> length rest"
    using hit by (rule match_at_within)
  moreover have "0 < n" if adv
    using hit that by (auto dest: match_at_advances)
  ultimately show ?case by (cases adv; cases "n = 0") auto
qed

declare pieces_from.simps [simp del]

definition pass_pieces :: "RedactionPattern \<Rightarrow> string \<Rightarrow> piece list" where
  "pass_pieces pat u = pieces_from (pattern pat) (replacement pat) None u False"

text \<open>
  \<open>covered i ps\<close>: offset \<open>i\<close> of the text that the pieces \<open>ps\<close> come from is the start of a
  replaced stretch or lies inside one.
\<close>

fun covered :: "nat \<Rightarrow> piece list \<Rightarrow> bool" where
  "covered i [] = False"
| "covered i (Copied c # ps) = (0 < i \<and> covered (i - 1) ps)"
| "covered i (Replaced matched repl # ps) =
     (i = 0 \<or> i < length matched \<or> covered (i - length matched) ps)"

section \<open>Properties\<close>

subsection \<open>Empty and absent input\<close>

text \<open>
  C6. \<open>redact\<close> of the empty string returns the empty string and \<open>False\<close>, and \<open>redact\<close> of
  \<open>None\<close> returns \<open>None\<close> and \<open>False\<close>. In both cases no event at all is produced, whatever
  the scrubber and the loaded profiles are: the scrubber is not called (a scrubber that
  raises would leave a warning), \<open>get_patterns\<close> is not called (no \<open>re.compile\<close>), and no
  substitution runs.
\<close>

theorem redact_empty_or_absent:
  "redact clean e (Some []) = ((Some [], False), []) \<and> redact clean e None = ((None, False), [])"
  by (simp add: redact_def)


subsection \<open>Unloading a profile\<close>

lemma dict_del_names: "map fst (dict_del k kvs) = filter (\<lambda>k'. k' \<noteq> k) (map fst kvs)"
  by (induction kvs) (auto simp: dict_del_def)

text \<open>
  C9. \<open>unload_profile\<close> returns \<open>True\<close> exactly when a profile of that name is loaded, and
  then removes it (the other profiles stay, in their order); for a name that is not loaded
  it returns \<open>False\<close>, logs nothing and leaves the engine as it is. The detectors that
  \<open>load_profile\<close> added to the scrubber stay in either case.
\<close>

theorem unload_profile_result:
  "fst (fst (unload_profile e n)) = (n \<in> set (list_profiles e))
   \<and> profiles (snd (fst (unload_profile e n))) = filter (\<lambda>kv. fst kv \<noteq> n) (profiles e)
   \<and> list_profiles (snd (fst (unload_profile e n))) = filter (\<lambda>k. k \<noteq> n) (list_profiles e)
   \<and> n \<notin> set (list_profiles (snd (fst (unload_profile e n))))
   \<and> scrubber (snd (fst (unload_profile e n))) = scrubber e
   \<and> (n \<notin> set (list_profiles e) \<longrightarrow> unload_profile e n = ((False, e), []))"
proof -
  have keep: "filter (\<lambda>kv. fst kv \<noteq> n) kvs = kvs" if "n \<notin> set (map fst kvs)" for kvs :: "(string \<times> ComplianceProfile) list"
    using that by (induction kvs) auto
  show ?thesis
  proof (cases "n \<in> set (list_profiles e)")
    case True
    then show ?thesis
      by (simp add: unload_profile_def dict_contains_def list_profiles_def dict_del_names)
         (simp add: dict_del_def)
  next
    case False
    then have "filter (\<lambda>k. k \<noteq> n) (list_profiles e) = list_profiles e"
      by (auto simp: filter_id_conv)
    with False show ?thesis
      using keep [of "profiles e"]
      by (simp add: unload_profile_def dict_contains_def list_profiles_def)
  qed
qed

theorem unload_profile_result_witness:
  "fst (fst (unload_profile (fst (RedactionEngine_init True)) ''nonexistent'')) = False
   \<and> list_profiles (snd (fst (unload_profile (fst (RedactionEngine_init True)) ''nonexistent''))) = [''us_global'']
   \<and> unload_profile (fst (RedactionEngine_init True)) ''nonexistent'' = ((False, fst (RedactionEngine_init True)), [])
   \<and> fst (fst (unload_profile (fst (RedactionEngine_init True)) ''us_global'')) = True
   \<and> list_profiles (snd (fst (unload_profile (fst (RedactionEngine_init True)) ''us_global''))) = []"
proof -
  have names: "list_profiles (fst (RedactionEngine_init True)) = [''us_global'']"
    by (simp add: RedactionEngine_init_def load_profile_def list_profiles_def DEFAULT_PROFILE_def
        USGlobalProfile_def USGlobalProfile_name_def)
  show ?thesis
    using unload_profile_result [of "fst (RedactionEngine_init True)" "''nonexistent''"]
      unload_profile_result [of "fst (RedactionEngine_init True)" "''us_global''"]
    by (simp add: names)
qed

subsection \<open>Construction\<close>

text \<open>
  C10. An engine constructed with the default argument has exactly the profile
  \<open>us_global\<close>; constructed with \<open>load_default_profile = False\<close> it has none, and \<open>redact\<close>
  of a non-empty text then returns what the scrubber returns (with the flag telling whether
  that differs from the input), or the input with a warning when the scrubber raises.
\<close>

theorem engine_init_profiles:
  "list_profiles (fst (RedactionEngine_init True)) = [''us_global'']
   \<and> list_profiles (fst (RedactionEngine_init False)) = []
   \<and> (t \<noteq> [] \<longrightarrow>
        redact clean (fst (RedactionEngine_init False)) (Some t) =
          (case clean [] t of
             Inr t' \<Rightarrow> ((Some t', t' \<noteq> t), [])
           | Inl (Exception msg) \<Rightarrow>
               ((Some t, False), [LogWarning (''Scrubadub error (continuing with regex): '' @ msg)])))"
  by (auto simp: RedactionEngine_init_def load_profile_def list_profiles_def DEFAULT_PROFILE_def
        USGlobalProfile_def USGlobalProfile_name_def redact_def Let_def split: sum.splits exn.splits)

theorem engine_init_profiles_witness:
  "redact (\<lambda>ds t. Inr (filter (\<lambda>c. c \<noteq> CHR ''@'') t)) (fst (RedactionEngine_init False)) (Some ''a@b'')
     = ((Some ''ab'', True), [])
   \<and> redact failing_scrubber (fst (RedactionEngine_init False)) (Some ''a@b'')
     = ((Some ''a@b'', False), [LogWarning ''Scrubadub error (continuing with regex): detector failure''])"
  using engine_init_profiles [of "''a@b''" "\<lambda>ds t. Inr (filter (\<lambda>c. c \<noteq> CHR ''@'') t)"]
    engine_init_profiles [of "''a@b''" failing_scrubber]
  by (simp add: failing_scrubber_def)

subsection \<open>Batches\<close>

lemma redact_batch_loop_eq:
  "redact_batch_loop clean e texts results any_redacted evs =
     ((results @ map (\<lambda>t. fst (fst (redact clean e t))) texts,
       any_redacted \<or> list_ex (\<lambda>t. snd (fst (redact clean e t))) texts),
      evs @ concat (map (\<lambda>t. snd (redact clean e t)) texts))"
  by (induction texts arbitrary: results any_redacted evs) (auto split: prod.splits)

text \<open>
  C5. \<open>redact_batch\<close> returns as many texts as it is given, the \<open>i\<close>-th being the text that
  \<open>redact\<close> returns for the \<open>i\<close>-th input, and its flag is the disjunction of the flags of
  these calls; for the empty list it returns the empty list and \<open>False\<close>.
\<close>

theorem redact_batch_elementwise:
  "fst (fst (redact_batch clean e texts)) = map (\<lambda>t. fst (fst (redact clean e t))) texts
   \<and> length (fst (fst (redact_batch clean e texts))) = length texts
   \<and> snd (fst (redact_batch clean e texts)) = list_ex (\<lambda>t. snd (fst (redact clean e t))) texts
   \<and> redact_batch clean e [] = (([], False), [])"
  by (simp add: redact_batch_def redact_batch_loop_eq)



subsection \<open>What \<open>redact\<close> computes\<close>

lemma apply_pattern_eq:
  "apply_pattern pat (text, evs) = (pattern_step pat text, evs @ pattern_warning pat text)"
  by (auto simp: pattern_step_def pattern_warning_def split: sum.splits exn.splits)

lemma fold_apply_pattern_eq:
  "fold apply_pattern pats (text, evs) = (fold pattern_step pats text, evs @ warnings_of pats text)"
  by (induction pats arbitrary: "text" evs) (auto simp: apply_pattern_eq simp del: apply_pattern.simps)

lemma fold_apply_profile_eq:
  "fold apply_profile ps (text, evs) =
     (fold pattern_step (concat (map (\<lambda>p. fst (get_patterns p)) ps)) text, evs @ profile_trace ps text)"
  by (induction ps arbitrary: "text" evs) (auto simp: fold_apply_pattern_eq)

lemma redact_eq:
  assumes "t \<noteq> []"
  shows "redact clean e (Some t) =
     ((Some (fold pattern_step (all_patterns e) (scrubbed clean e t)),
       fold pattern_step (all_patterns e) (scrubbed clean e t) \<noteq> t),
      (case clean (scrubber e) t of
         Inr t' \<Rightarrow> []
       | Inl (Exception msg) \<Rightarrow> [LogWarning (''Scrubadub error (continuing with regex): '' @ msg)])
      @ profile_trace (map snd (profiles e)) (scrubbed clean e t))"
  using assms
  by (auto simp: redact_def Let_def scrubbed_def all_patterns_def fold_apply_profile_eq comp_def
      split: sum.splits exn.splits)

lemma warnings_of_append:
  "warnings_of (xs @ ys) text = warnings_of xs text @ warnings_of ys (fold pattern_step xs text)"
  by (induction xs arbitrary: "text") auto

lemma warnings_in_profile_trace:
  "set (warnings_of (concat (map (\<lambda>p. fst (get_patterns p)) ps)) text) \<subseteq> set (profile_trace ps text)"
  by (induction ps arbitrary: "text") (auto simp: warnings_of_append)

subsection \<open>Failures of the detector and of single patterns\<close>

text \<open>
  C1. In \<open>redact\<close> of a non-empty text, when the scrubber raises, the warning is logged and
  text and flag are the ones obtained with a scrubber that returns its input unchanged: the
  patterns run on the original text. When the substitution of one pattern raises on the
  text produced by the patterns before it, its warning is logged and the returned text is
  what the patterns after it make of that same text. In both cases \<open>redact\<close> returns to its
  caller.
\<close>

theorem redact_recovers:
  assumes "t \<noteq> []"
  shows "(clean (scrubber e) t = Inl (Exception msg) \<longrightarrow>
         fst (redact clean e (Some t)) = fst (redact identity_scrubber e (Some t))
         \<and> LogWarning (''Scrubadub error (continuing with regex): '' @ msg)
             \<in> set (snd (redact clean e (Some t))))
    \<and> (all_patterns e = before @ pat # after
        \<and> sub (pattern pat) (replacement pat) (fold pattern_step before (scrubbed clean e t))
            = Inl (Exception msg') \<longrightarrow>
         fst (fst (redact clean e (Some t)))
           = Some (fold pattern_step after (fold pattern_step before (scrubbed clean e t)))
         \<and> LogWarning (''Pattern '' @ [squote] @ name pat @ [squote] @ '' error: '' @ msg')
             \<in> set (snd (redact clean e (Some t))))"
proof (intro conjI impI)
  assume raised: "clean (scrubber e) t = Inl (Exception msg)"
  then have "scrubbed clean e t = t" and "scrubbed identity_scrubber e t = t"
    by (simp_all add: scrubbed_def identity_scrubber_def)
  then show "fst (redact clean e (Some t)) = fst (redact identity_scrubber e (Some t))"
    by (simp add: redact_eq [OF assms])
  show "LogWarning (''Scrubadub error (continuing with regex): '' @ msg)
          \<in> set (snd (redact clean e (Some t)))"
    using raised by (simp add: redact_eq [OF assms])
next
  assume h: "all_patterns e = before @ pat # after
     \<and> sub (pattern pat) (replacement pat) (fold pattern_step before (scrubbed clean e t))
         = Inl (Exception msg')"
  let ?u = "fold pattern_step before (scrubbed clean e t)"
  from h have skip: "pattern_step pat ?u = ?u"
    by (simp add: pattern_step_def)
  with h show "fst (fst (redact clean e (Some t))) = Some (fold pattern_step after ?u)"
    by (simp add: redact_eq [OF assms])
  from h have "pattern_warning pat ?u
      = [LogWarning (''Pattern '' @ [squote] @ name pat @ [squote] @ '' error: '' @ msg')]"
    by (simp add: pattern_warning_def)
  then have "LogWarning (''Pattern '' @ [squote] @ name pat @ [squote] @ '' error: '' @ msg')
      \<in> set (warnings_of (all_patterns e) (scrubbed clean e t))"
    using h by (simp add: warnings_of_append)
  then have "LogWarning (''Pattern '' @ [squote] @ name pat @ [squote] @ '' error: '' @ msg')
      \<in> set (profile_trace (map snd (profiles e)) (scrubbed clean e t))"
    using warnings_in_profile_trace [of "map snd (profiles e)" "scrubbed clean e t"]
    by (auto simp: all_patterns_def comp_def)
  then show "LogWarning (''Pattern '' @ [squote] @ name pat @ [squote] @ '' error: '' @ msg')
      \<in> set (snd (redact clean e (Some t)))"
    by (simp add: redact_eq [OF assms])
qed

theorem redact_recovers_witness:
  "fst (redact failing_scrubber
          (load_all [example_profile ''test''
             [literal_pattern ''first'' ''x'' [TLit ''y''],
              literal_pattern ''broken'' ''y'' [TGroup 1],
              literal_pattern ''last'' ''y'' [TLit ''z'']]])
          (Some ''x'')) = (Some ''z'', True)
   \<and> LogWarning ''Scrubadub error (continuing with regex): detector failure''
        \<in> set (snd (redact failing_scrubber
          (load_all [example_profile ''test''
             [literal_pattern ''first'' ''x'' [TLit ''y''],
              literal_pattern ''broken'' ''y'' [TGroup 1],
              literal_pattern ''last'' ''y'' [TLit ''z'']]])
          (Some ''x'')))
   \<and> LogWarning (''Pattern '' @ [squote] @ ''broken'' @ [squote]
                    @ '' error: invalid group reference 1 at position 1'')
        \<in> set (snd (redact failing_scrubber
          (load_all [example_profile ''test''
             [literal_pattern ''first'' ''x'' [TLit ''y''],
              literal_pattern ''broken'' ''y'' [TGroup 1],
              literal_pattern ''last'' ''y'' [TLit ''z'']]])
          (Some ''x'')))"
proof -
  let ?first = "literal_pattern ''first'' ''x'' [TLit ''y'']"
  let ?broken = "literal_pattern ''broken'' ''y'' [TGroup 1]"
  let ?last = "literal_pattern ''last'' ''y'' [TLit ''z'']"
  let ?e = "load_all [example_profile ''test'' [?first, ?broken, ?last]]"
  have nonempty: "''x'' \<noteq> []" by simp
  have order: "all_patterns ?e = [?first] @ ?broken # [?last]"
    by (simp add: all_patterns_def load_all_def load_profile_def RedactionEngine_init_def
        example_profile_def)
  have raised: "failing_scrubber (scrubber ?e) ''x'' = Inl (Exception ''detector failure'')"
    by (simp add: failing_scrubber_def)
  have start: "scrubbed failing_scrubber ?e ''x'' = ''x''"
    by (simp add: scrubbed_def failing_scrubber_def)
  have before: "fold pattern_step [?first] ''x'' = ''y''"
    by code_simp
  have broken: "sub (pattern ?broken) (replacement ?broken) ''y''
      = Inl (Exception ''invalid group reference 1 at position 1'')"
    by code_simp
  have after: "fold pattern_step [?last] ''y'' = ''z''"
    by code_simp
  have same: "fst (redact identity_scrubber ?e (Some ''x'')) = (Some ''z'', True)"
    by code_simp
  show ?thesis
    using redact_recovers [OF nonempty, of failing_scrubber ?e "''detector failure''"
        "[?first]" ?broken "[?last]" "''invalid group reference 1 at position 1''"]
      order raised start before broken after same
    by (simp add: literal_pattern_def)
qed

subsection \<open>Order of the stages\<close>

lemma dict_set_fresh: "k \<notin> set (map fst kvs) \<Longrightarrow> dict_set k v kvs = kvs @ [(k, v)]"
  by (induction kvs) auto

lemma dict_set_names:
  "map fst (dict_set k v kvs) = (if k \<in> set (map fst kvs) then map fst kvs else map fst kvs @ [k])"
  by (induction kvs) (auto simp: rev_image_eqI)

lemma dict_set_lookup: "map_of (dict_set k v kvs) k = Some v"
  by (induction kvs) auto

lemma load_all_snoc: "load_all (ps @ [p]) = fst (load_profile (load_all ps) p)"
  by (simp add: load_all_def)

lemma load_all_distinct:
  "distinct (map profile_name ps) \<Longrightarrow> profiles (load_all ps) = map (\<lambda>p. (profile_name p, p)) ps"
proof (induction ps rule: rev_induct)
  case Nil
  show ?case by (simp add: load_all_def RedactionEngine_init_def)
next
  case (snoc p ps)
  then have "profile_name p \<notin> set (map fst (profiles (load_all ps)))"
    by (auto simp: comp_def)
  then have "dict_set (profile_name p) p (profiles (load_all ps)) = profiles (load_all ps) @ [(profile_name p, p)]"
    by (rule dict_set_fresh)
  with snoc show ?case
    by (simp add: load_all_snoc load_profile_def)
qed

text \<open>
  C2, as the code has it. For a non-empty text \<open>redact\<close> runs the scrubber first and then the
  patterns of the loaded profiles, profile after profile in the order of the profile
  \<open>dict\<close> and within a profile in the order of \<open>get_patterns\<close>, each on the text left by
  the one before (a pattern whose substitution raises leaves the text as it is). The order
  of the \<open>dict\<close> is the order of loading as long as no name is loaded twice; a profile
  loaded under a name that is present takes the place of the profile it replaces.
\<close>

theorem redact_stage_order:
  "(t \<noteq> [] \<longrightarrow>
      fst (redact clean e (Some t)) =
        (Some (fold pattern_step (all_patterns e) (scrubbed clean e t)),
         fold pattern_step (all_patterns e) (scrubbed clean e t) \<noteq> t))
   \<and> (distinct (map profile_name ps) \<longrightarrow>
        map snd (profiles (load_all ps)) = ps
        \<and> all_patterns (load_all ps) = concat (map (\<lambda>p. fst (get_patterns p)) ps))
   \<and> list_profiles (fst (load_profile e p)) =
        (if profile_name p \<in> set (list_profiles e) then list_profiles e
         else list_profiles e @ [profile_name p])
   \<and> map_of (profiles (fst (load_profile e p))) (profile_name p) = Some p"
proof (intro conjI impI)
  assume "t \<noteq> []"
  then show "fst (redact clean e (Some t)) =
        (Some (fold pattern_step (all_patterns e) (scrubbed clean e t)),
         fold pattern_step (all_patterns e) (scrubbed clean e t) \<noteq> t)"
    by (simp add: redact_eq)
next
  assume d: "distinct (map profile_name ps)"
  show "map snd (profiles (load_all ps)) = ps"
    by (simp add: load_all_distinct [OF d] comp_def)
  show "all_patterns (load_all ps) = concat (map (\<lambda>p. fst (get_patterns p)) ps)"
    by (simp add: all_patterns_def load_all_distinct [OF d] comp_def)
next
  show "list_profiles (fst (load_profile e p)) =
        (if profile_name p \<in> set (list_profiles e) then list_profiles e
         else list_profiles e @ [profile_name p])"
    by (simp add: list_profiles_def load_profile_def dict_set_names)
  show "map_of (profiles (fst (load_profile e p))) (profile_name p) = Some p"
    by (simp add: load_profile_def dict_set_lookup)
qed

theorem redact_stage_order_witness:
  "fst (redact identity_scrubber
          (load_all [example_profile ''b'' [literal_pattern ''second'' ''y'' [TLit ''z'']],
                     example_profile ''a'' [literal_pattern ''third'' ''z'' [TLit ''w'']]])
          (Some ''y'')) = (Some ''w'', True)
   \<and> map snd (profiles
          (load_all [example_profile ''b'' [literal_pattern ''second'' ''y'' [TLit ''z'']],
                     example_profile ''a'' [literal_pattern ''third'' ''z'' [TLit ''w'']]]))
       = [example_profile ''b'' [literal_pattern ''second'' ''y'' [TLit ''z'']],
          example_profile ''a'' [literal_pattern ''third'' ''z'' [TLit ''w'']]]"
proof -
  let ?b = "example_profile ''b'' [literal_pattern ''second'' ''y'' [TLit ''z'']]"
  let ?a = "example_profile ''a'' [literal_pattern ''third'' ''z'' [TLit ''w'']]"
  have d: "distinct (map profile_name [?b, ?a])"
    by (simp add: example_profile_def)
  have s: "scrubbed identity_scrubber (load_all [?b, ?a]) ''y'' = ''y''"
    by (simp add: scrubbed_def identity_scrubber_def)
  have r: "fold pattern_step (concat (map (\<lambda>p. fst (get_patterns p)) [?b, ?a])) ''y'' = ''w''"
    by code_simp
  show ?thesis
    using redact_stage_order [of "''y''" identity_scrubber "load_all [?b, ?a]" "[?b, ?a]"] d s r
    by simp
qed

text \<open>
  C2 as stated fails when a name is loaded again: after loading \<open>a\<close>, \<open>b\<close> and a second
  profile named \<open>a\<close>, the loaded profiles are \<open>b\<close> and the second \<open>a\<close>, loaded in this
  order, but \<open>redact\<close> applies the second \<open>a\<close> first: \<open>y\<close> becomes \<open>z\<close>, where the order of
  loading would give \<open>w\<close>.
\<close>

theorem load_order_counterexample:
  "map snd (profiles
      (load_all [example_profile ''a'' [literal_pattern ''first'' ''x'' [TLit ''y'']],
                 example_profile ''b'' [literal_pattern ''second'' ''y'' [TLit ''z'']],
                 example_profile ''a'' [literal_pattern ''third'' ''z'' [TLit ''w'']]]))
     = [example_profile ''a'' [literal_pattern ''third'' ''z'' [TLit ''w'']],
        example_profile ''b'' [literal_pattern ''second'' ''y'' [TLit ''z'']]]
   \<and> fst (redact identity_scrubber
      (load_all [example_profile ''a'' [literal_pattern ''first'' ''x'' [TLit ''y'']],
                 example_profile ''b'' [literal_pattern ''second'' ''y'' [TLit ''z'']],
                 example_profile ''a'' [literal_pattern ''third'' ''z'' [TLit ''w'']]])
      (Some ''y'')) = (Some ''z'', True)
   \<and> fst (fold apply_profile
        [example_profile ''b'' [literal_pattern ''second'' ''y'' [TLit ''z'']],
         example_profile ''a'' [literal_pattern ''third'' ''z'' [TLit ''w'']]] (''y'', [])) = ''w''"
  by code_simp


subsection \<open>The default engine on a password\<close>

lemma default_engine:
  "fst (RedactionEngine_init True) = \<lparr>profiles = [(''us_global'', USGlobalProfile)], scrubber = []\<rparr>"
  by (simp add: RedactionEngine_init_def load_profile_def DEFAULT_PROFILE_def USGlobalProfile_def
      USGlobalProfile_name_def)

lemma default_patterns:
  "all_patterns (fst (RedactionEngine_init True)) = fst USGlobalProfile_get_patterns"
  by (simp add: default_engine all_patterns_def USGlobalProfile_def)

lemma password_passes:
  "fold pattern_step (fst USGlobalProfile_get_patterns) ''password=mysecretpass123''
     = ''password={{REDACTED_PASSWORD}}''"
  by code_simp

text \<open>
  C7. On an engine constructed with the default argument, \<open>redact\<close> of
  \<open>password=mysecretpass123\<close> returns \<open>password={{REDACTED_PASSWORD}}\<close> and \<open>True\<close>: the key is
  kept and the value replaced. What the scrubber of the scrubadub library does to this text is
  not in the repository; the statement is for a scrubber that returns this text unchanged
  or raises on it.
\<close>

theorem password_scenario:
  assumes "clean [] ''password=mysecretpass123'' = Inr ''password=mysecretpass123''
           \<or> (\<exists>x. clean [] ''password=mysecretpass123'' = Inl x)"
  shows "fst (redact clean (fst (RedactionEngine_init True)) (Some ''password=mysecretpass123''))
           = (Some ''password={{REDACTED_PASSWORD}}'', True)"
proof -
  have "scrubber (fst (RedactionEngine_init True)) = []"
    by (simp add: default_engine)
  with assms have "scrubbed clean (fst (RedactionEngine_init True)) ''password=mysecretpass123''
      = ''password=mysecretpass123''"
    by (auto simp: scrubbed_def)
  then show ?thesis
    by (simp add: redact_eq default_patterns password_passes)
qed

theorem password_scenario_witness:
  "fst (redact identity_scrubber (fst (RedactionEngine_init True)) (Some ''password=mysecretpass123''))
     = (Some ''password={{REDACTED_PASSWORD}}'', True)"
  using password_scenario [of identity_scrubber]
  by (simp add: identity_scrubber_def)

subsection \<open>When the patterns are compiled\<close>

lemma compile_calls_append: "compile_calls (xs @ ys) = compile_calls xs + compile_calls ys"
  by (simp add: compile_calls_def)

lemma compile_calls_warnings: "compile_calls (warnings_of pats u) = 0"
  by (induction pats arbitrary: u)
     (auto simp: compile_calls_def pattern_warning_def split: sum.splits exn.splits)

lemma compile_calls_profile_trace:
  "compile_calls (profile_trace ps u) = sum_list (map (\<lambda>p. compile_calls (snd (get_patterns p))) ps)"
  by (induction ps arbitrary: u) (simp_all add: compile_calls_append compile_calls_warnings, simp add: compile_calls_def)

lemma compile_calls_redact:
  "t \<noteq> [] \<Longrightarrow> compile_calls (snd (redact clean e (Some t)))
      = sum_list (map (\<lambda>kv. compile_calls (snd (get_patterns (snd kv)))) (profiles e))"
  by (auto simp: redact_eq compile_calls_append compile_calls_profile_trace comp_def
      split: sum.splits exn.splits) (simp_all add: compile_calls_def)

lemma compile_calls_default: "compile_calls (snd USGlobalProfile_get_patterns) = 13"
  by (simp add: USGlobalProfile_get_patterns_def list_of_def RedactionPattern_init_def
      re_compile_def compile_calls_def)

text \<open>
  C8, as the code has it. Neither constructing an engine nor loading a profile calls
  \<open>re.compile\<close>. Every \<open>redact\<close> of a non-empty text calls \<open>get_patterns\<close> once for each
  loaded profile, and \<open>get_patterns\<close> of the default profile calls \<open>re.compile\<close> for each of
  its patterns: 13 calls in every \<open>redact\<close> on the default engine. The list that
  \<open>get_patterns\<close> builds is the same 13 patterns in the same order on every call.
\<close>

theorem compile_on_every_call:
  "compile_calls (snd (RedactionEngine_init load_default_profile)) = 0
   \<and> compile_calls (snd (load_profile e profile)) = 0
   \<and> (t \<noteq> [] \<longrightarrow>
        compile_calls (snd (redact clean e (Some t)))
          = sum_list (map (\<lambda>kv. compile_calls (snd (get_patterns (snd kv)))) (profiles e))
        \<and> compile_calls (snd (redact clean (fst (RedactionEngine_init True)) (Some t))) = 13)
   \<and> map name (fst USGlobalProfile_get_patterns)
       = [''credit_card'', ''credit_card_formatted'', ''ssn'', ''ssn_no_dash'', ''aws_access_key'',
          ''aws_secret_key'', ''bearer_token'', ''jwt_token'', ''api_key_value'', ''password'',
          ''private_key'', ''github_token'', ''slack_token'']"
proof (intro conjI impI)
  show "compile_calls (snd (RedactionEngine_init load_default_profile)) = 0"
    by (simp add: RedactionEngine_init_def Let_def load_profile_def compile_calls_def)
  show "compile_calls (snd (load_profile e profile)) = 0"
    by (simp add: load_profile_def compile_calls_def)
  show "map name (fst USGlobalProfile_get_patterns)
       = [''credit_card'', ''credit_card_formatted'', ''ssn'', ''ssn_no_dash'', ''aws_access_key'',
          ''aws_secret_key'', ''bearer_token'', ''jwt_token'', ''api_key_value'', ''password'',
          ''private_key'', ''github_token'', ''slack_token'']"
    by (simp add: USGlobalProfile_get_patterns_def list_of_def RedactionPattern_init_def)
next
  assume t: "t \<noteq> []"
  then show "compile_calls (snd (redact clean e (Some t)))
          = sum_list (map (\<lambda>kv. compile_calls (snd (get_patterns (snd kv)))) (profiles e))"
    by (rule compile_calls_redact)
  show "compile_calls (snd (redact clean (fst (RedactionEngine_init True)) (Some t))) = 13"
    by (simp add: compile_calls_redact [OF t] default_engine USGlobalProfile_def compile_calls_default)
qed

theorem compile_on_every_call_witness:
  "compile_calls (snd (redact identity_scrubber (fst (RedactionEngine_init True)) (Some ''x''))) = 13
   \<and> compile_calls (snd (redact identity_scrubber (fst (RedactionEngine_init False)) (Some ''x''))) = 0"
  using compile_on_every_call [of True "fst (RedactionEngine_init False)" USGlobalProfile "''x''" identity_scrubber]
  by (simp add: RedactionEngine_init_def)

text \<open>
  C8 as stated fails: constructing the default engine compiles nothing, one \<open>redact\<close> calls
  \<open>re.compile\<close> 13 times, and a batch of two texts calls it 26 times.
\<close>

theorem compiled_once_counterexample:
  "compile_calls (snd (RedactionEngine_init True)) = 0
   \<and> compile_calls (snd (redact identity_scrubber (fst (RedactionEngine_init True)) (Some ''x''))) = 13
   \<and> compile_calls (snd (redact_batch identity_scrubber (fst (RedactionEngine_init True)) [Some ''x'', Some ''y''])) = 26"
proof -
  have x: "''x'' \<noteq> []" and y: "''y'' \<noteq> []" by simp_all
  have one: "compile_calls (snd (redact identity_scrubber (fst (RedactionEngine_init True)) (Some t))) = 13"
    if "t \<noteq> []" for t
    by (simp add: compile_calls_redact [OF that] default_engine USGlobalProfile_def compile_calls_default)
  have "compile_calls (snd (RedactionEngine_init True)) = 0"
    by (simp add: RedactionEngine_init_def load_profile_def compile_calls_def)
  moreover have "compile_calls (snd (redact_batch identity_scrubber (fst (RedactionEngine_init True))
      [Some ''x'', Some ''y''])) = 26"
    by (simp add: redact_batch_def redact_batch_loop_eq compile_calls_append one [OF x] one [OF y])
  ultimately show ?thesis
    using one [OF x] by simp
qed


subsection \<open>What one pass of a pattern leaves behind\<close>

lemma no_match_at_start:
  "match_at p prev rest False = None \<Longrightarrow> m (ignorecase p) (tree p) (prev, rest, []) = []"
  by (auto simp: match_at_def split: list.splits)

lemma pieces_output:
  "concat (map piece_output (pieces_from p repl prev rest adv)) = sub_loop p repl prev rest adv"
proof (induction p repl prev rest adv rule: pieces_from.induct)
  case (1 p repl prev rest adv)
  show ?case
    by (subst pieces_from.simps, subst sub_loop.simps)
       (auto split: option.splits list.splits simp: 1)
qed

lemma pieces_source:
  "concat (map piece_source (pieces_from p repl prev rest adv)) = rest"
proof (induction p repl prev rest adv rule: pieces_from.induct)
  case (1 p repl prev rest adv)
  show ?case
    by (subst pieces_from.simps)
       (auto split: option.splits list.splits simp: 1)
qed

lemma pieces_cover:
  "matches_from prev rest j p \<Longrightarrow> covered j (pieces_from p repl prev rest adv) \<or> (adv \<and> j = 0)"
proof (induction p repl prev rest adv arbitrary: j rule: pieces_from.induct)
  case (1 p repl prev rest adv)
  show ?case
  proof (cases "match_at p prev rest adv")
    case None
    show ?thesis
    proof (cases "j = 0")
      case True
      show ?thesis
      proof (cases adv)
        case True
        with \<open>j = 0\<close> show ?thesis by simp
      next
        case False
        with None have "m (ignorecase p) (tree p) (prev, rest, []) = []"
          by (simp add: no_match_at_start)
        with "1.prems" \<open>j = 0\<close> show ?thesis
          by (simp add: matches_from_def char_before_def)
      qed
    next
      case False
      with "1.prems" obtain c cs where rest: "rest = c # cs"
        by (cases rest) (auto simp: matches_from_def)
      from "1.prems" False rest have "matches_from (Some c) cs (j - 1) p"
        by (cases j) (auto simp: matches_from_def char_before_def nth_Cons split: nat.splits)
      then have "covered (j - 1) (pieces_from p repl (Some c) cs False)"
        using "1.IH"(1) [OF None rest] by auto
      with None rest False show ?thesis
        by (subst pieces_from.simps) simp
    qed
  next
    case (Some hit)
    obtain n caps where hit: "hit = (n, caps)" by (cases hit)
    from Some hit have n: "n \<le> length rest"
      by (auto dest: match_at_within)
    let ?prev' = "if n = 0 then prev else Some (last (take n rest))"
    have unfold: "pieces_from p repl prev rest adv =
        Replaced (take n rest) (expand repl (take n rest) caps)
        # pieces_from p repl ?prev' (drop n rest) (n = 0)"
      using Some hit by (subst pieces_from.simps) simp
    show ?thesis
    proof (cases "j = 0 \<or> j < n")
      case True
      then show ?thesis
        unfolding unfold using n by auto
    next
      case False
      then have j: "0 < j" "n \<le> j" by auto
      have "last (take n rest) = rest ! (n - 1)" if "0 < n"
        using that n by (cases n) (simp_all add: last_conv_nth take_Suc_conv_app_nth min_def)
      with "1.prems" j n have "matches_from ?prev' (drop n rest) (j - n) p"
        by (auto simp: matches_from_def char_before_def)
      then have "covered (j - n) (pieces_from p repl ?prev' (drop n rest) (n = 0))
          \<or> (n = 0 \<and> j - n = 0)"
        using "1.IH"(2) [OF Some hit [symmetric]] by blast
      with j have "covered (j - n) (pieces_from p repl ?prev' (drop n rest) (n = 0))"
        by auto
      then show ?thesis
        unfolding unfold using n by (cases "n = 0") (auto simp: min_def)
    qed
  qed
qed


text \<open>
  C3, as the code has it. Every loaded pattern whose substitution does not raise gets one
  pass over the text as it stands at its turn, and the text that pass produces is what
  the patterns after it work on. The pass is the sequence of its pieces, and every offset
  of the text it was given at which the pattern's matcher matches is the start of a stretch
  that the pass replaced or lies inside one. Nothing is said about the returned text: a
  pattern can match what a substitution produced, its own as well as another pattern's, and
  a pattern whose substitution raises is skipped.
\<close>

theorem pass_replaces_matches:
  assumes "t \<noteq> []"
    and "all_patterns e = before @ pat # after"
    and "u = fold pattern_step before (scrubbed clean e t)"
    and "sub (pattern pat) (replacement pat) u = Inr u'"
  shows "fst (fst (redact clean e (Some t))) = Some (fold pattern_step after u')
    \<and> concat (map piece_source (pass_pieces pat u)) = u
    \<and> concat (map piece_output (pass_pieces pat u)) = u'
    \<and> (\<forall>i. matches_at (pattern pat) u i \<longrightarrow> covered i (pass_pieces pat u))"
proof (intro conjI allI impI)
  from assms(4) have step: "pattern_step pat u = u'"
    by (simp add: pattern_step_def)
  with assms(1-3) show "fst (fst (redact clean e (Some t))) = Some (fold pattern_step after u')"
    by (simp add: redact_eq)
  show "concat (map piece_source (pass_pieces pat u)) = u"
    by (simp add: pass_pieces_def pieces_source)
  from assms(4) have "sub_loop (pattern pat) (replacement pat) None u False = u'"
    by (simp add: sub_def split: option.splits prod.splits)
  then show "concat (map piece_output (pass_pieces pat u)) = u'"
    by (simp add: pass_pieces_def pieces_output)
next
  fix i
  assume "matches_at (pattern pat) u i"
  then have "matches_from None u i (pattern pat)"
    by (simp add: matches_at_def)
  from pieces_cover [OF this, of "replacement pat" False]
  show "covered i (pass_pieces pat u)"
    by (simp add: pass_pieces_def)
qed

theorem pass_replaces_matches_witness:
  "fst (fst (redact identity_scrubber
       (load_all [example_profile ''only_ssn'' [fst USGlobalProfile_get_patterns ! 2]])
       (Some ''SSN: 123-45-6789''))) = Some ''SSN: {{SSN}}''
   \<and> matches_at (pattern (fst USGlobalProfile_get_patterns ! 2)) ''SSN: 123-45-6789'' 5
   \<and> covered 5 (pass_pieces (fst USGlobalProfile_get_patterns ! 2) ''SSN: 123-45-6789'')
   \<and> concat (map piece_output (pass_pieces (fst USGlobalProfile_get_patterns ! 2) ''SSN: 123-45-6789''))
       = ''SSN: {{SSN}}''"
proof -
  let ?ssn = "fst USGlobalProfile_get_patterns ! 2"
  let ?e = "load_all [example_profile ''only_ssn'' [?ssn]]"
  have nonempty: "''SSN: 123-45-6789'' \<noteq> []" by simp
  have pats: "all_patterns ?e = [] @ ?ssn # []"
    by (simp add: all_patterns_def load_all_def load_profile_def RedactionEngine_init_def
        example_profile_def)
  have start: "''SSN: 123-45-6789'' = fold pattern_step [] (scrubbed identity_scrubber ?e ''SSN: 123-45-6789'')"
    by (simp add: scrubbed_def identity_scrubber_def)
  have pass: "sub (pattern ?ssn) (replacement ?ssn) ''SSN: 123-45-6789'' = Inr ''SSN: {{SSN}}''"
    by code_simp
  have hit: "matches_at (pattern ?ssn) ''SSN: 123-45-6789'' 5"
    by code_simp
  show ?thesis
    using pass_replaces_matches [OF nonempty pats start pass] hit
    by simp
qed

text \<open>
  C3 as stated fails for a match that the pattern's own substitution produces. With the
  password pattern of the default profile as the only loaded pattern, \<open>redact\<close> of
  \<open>pwd=abcd\<close> returns \<open>pwd={{REDACTED_PASSWORD}}\<close>, which the password pattern matches at
  offset 0; the default engine returns the same text.
\<close>

theorem rematch_counterexample:
  "fst (redact identity_scrubber
       (load_all [example_profile ''only_password'' [fst USGlobalProfile_get_patterns ! 9]])
       (Some ''pwd=abcd'')) = (Some ''pwd={{REDACTED_PASSWORD}}'', True)
   \<and> matches_at (pattern (fst USGlobalProfile_get_patterns ! 9)) ''pwd={{REDACTED_PASSWORD}}'' 0
   \<and> fst (redact identity_scrubber (fst (RedactionEngine_init True)) (Some ''pwd=abcd''))
       = (Some ''pwd={{REDACTED_PASSWORD}}'', True)"
  by code_simp

subsection \<open>A second pass\<close>







end
